theory Spec2Isabelle
  imports Complex_Main "HOL-Library.Char_ord" "HOL-Library.List_Lexorder"
begin

section \<open>JavaScript values\<close>

text \<open>
  The tracker keeps its data as plain JavaScript values that come out of \<^verbatim>\<open>JSON.parse\<close>
  and go into \<^verbatim>\<open>JSON.stringify\<close>. \<open>jsval\<close> is the type of these values. A string is a
  \<open>string\<close>, each \<open>char\<close> standing for one UTF-16 code unit below 256; an object is the
  list of its own properties, read with \<open>map_of\<close>. A number is given by its value; the
  code looks at such a number only for being zero and for equality.
\<close>

datatype jsval =
    JUndefined
  | JNull
  | JBool bool
  | JNum rat
  | JStr string
  | JArr "jsval list"
  | JObj "(string \<times> jsval) list"

text \<open>The exceptions the modelled code can raise by itself.\<close>

datatype js_error = TypeError | RangeError

text \<open>\<^verbatim>\<open>Boolean(v)\<close>, the test of \<^verbatim>\<open>if (v)\<close>, \<^verbatim>\<open>v && w\<close> and \<^verbatim>\<open>v || w\<close>.\<close>

fun truthy :: "jsval \<Rightarrow> bool" where
  "truthy JUndefined = False"
| "truthy JNull = False"
| "truthy (JBool b) = b"
| "truthy (JNum n) = (n \<noteq> 0)"
| "truthy (JStr s) = (s \<noteq> [])"
| "truthy (JArr xs) = True"
| "truthy (JObj kvs) = True"

fun nullish :: "jsval \<Rightarrow> bool" where
  "nullish JUndefined = True"
| "nullish JNull = True"
| "nullish v = False"

text \<open>
  \<^verbatim>\<open>v.k\<close> for a value that is neither \<^verbatim>\<open>null\<close> nor \<^verbatim>\<open>undefined\<close>, and a key \<open>k\<close> that
  no prototype defines (the code reads \<^verbatim>\<open>pid\<close>, \<^verbatim>\<open>meetingName\<close>, \<^verbatim>\<open>timestamp\<close>,
  \<^verbatim>\<open>meetingId\<close>, \<^verbatim>\<open>id\<close>, \<^verbatim>\<open>committee\<close>, \<^verbatim>\<open>name\<close>, \<^verbatim>\<open>date\<close>): an object gives the
  property or \<^verbatim>\<open>undefined\<close>, every other value gives \<^verbatim>\<open>undefined\<close>.
\<close>

fun field :: "jsval \<Rightarrow> string \<Rightarrow> jsval" where
  "field (JObj kvs) k = (case map_of kvs k of None \<Rightarrow> JUndefined | Some v \<Rightarrow> v)"
| "field v k = JUndefined"

text \<open>
  \<^verbatim>\<open>a === b\<close> between parts of two different entries of parsed JSON. Primitives are
  compared by type and value. Arrays and objects are compared by reference, and the
  parts of two different entries are never the same object, so the comparison is false.
\<close>

fun primitive :: "jsval \<Rightarrow> bool" where
  "primitive (JArr xs) = False"
| "primitive (JObj kvs) = False"
| "primitive v = True"

definition strict_eq :: "jsval \<Rightarrow> jsval \<Rightarrow> bool" where
  "strict_eq a b = (primitive a \<and> a = b)"

section \<open>The platform: JSON and localStorage\<close>

text \<open>
  \<^verbatim>\<open>JSON.parse\<close> and \<^verbatim>\<open>JSON.stringify\<close> belong to the browser, not to the repository, so
  the model takes them as a parameter \<open>JSON\<close>. \<open>parse JSON s = None\<close> says that
  \<^verbatim>\<open>JSON.parse(s)\<close> throws a SyntaxError. \<open>stringify JSON v\<close> is the string that
  \<^verbatim>\<open>localStorage.setItem(k, JSON.stringify(v))\<close> stores.
\<close>

record json_api =
  parse :: "string \<Rightarrow> jsval option"
  stringify :: "jsval \<Rightarrow> string"

text \<open>
  A value survives persistence when its stored text is not empty and parses back to it.
  The browser's JSON does this for every array of plain records of strings, numbers and
  booleans, which is what the tracker stores.
\<close>

definition round_trips :: "json_api \<Rightarrow> jsval \<Rightarrow> bool" where
  "round_trips JSON v = (stringify JSON v \<noteq> [] \<and> parse JSON (stringify JSON v) = Some v)"

text \<open>
  A JSON implementation cut down to a finite table of documents, each given with its
  text. It is used to run the model on concrete stores.
\<close>

definition json_of_table :: "(string \<times> jsval) list \<Rightarrow> json_api" where
  "json_of_table tbl =
     \<lparr>parse = map_of tbl,
      stringify = (\<lambda>v. case find (\<lambda>e. snd e = v) tbl of Some e \<Rightarrow> fst e | None \<Rightarrow> ''null'')\<rparr>"

text \<open>
  \<^verbatim>\<open>localStorage\<close>: a map from keys to strings. \<^verbatim>\<open>getItem\<close> gives \<^verbatim>\<open>null\<close> (\<open>None\<close>) for a
  key that was never set. The storage quota is not modelled: \<^verbatim>\<open>setItem\<close> always succeeds.
\<close>

type_synonym storage = "string \<Rightarrow> string option"

definition getItem :: "storage \<Rightarrow> string \<Rightarrow> string option" where
  "getItem ls k = ls k"

definition setItem :: "storage \<Rightarrow> string \<Rightarrow> string \<Rightarrow> storage" where
  "setItem ls k v = ls(k \<mapsto> v)"

text \<open>\<^verbatim>\<open>GOV_STORAGE_KEYS\<close>\<close>

definition SESSION :: string where
  "SESSION = ''vt_gov_session''"

definition SUBMISSIONS :: string where
  "SUBMISSIONS = ''vt_gov_submissions''"

definition MEETINGS_OVERRIDE :: string where
  "MEETINGS_OVERRIDE = ''vt_gov_meetings_override''"

definition ASSIGNMENTS_OVERRIDE :: string where
  "ASSIGNMENTS_OVERRIDE = ''vt_gov_assignments_override''"

section \<open>Shared utilities (utils.js)\<close>

text \<open>
  \<^verbatim>\<open>getSubmissions\<close>: \<^verbatim>\<open>stored ? JSON.parse(stored) : []\<close> inside \<^verbatim>\<open>try\<close>, and \<^verbatim>\<open>[]\<close> from
  the \<^verbatim>\<open>catch\<close>. A missing item and the empty string are falsy.
\<close>

definition getSubmissions :: "json_api \<Rightarrow> storage \<Rightarrow> jsval" where
  "getSubmissions JSON ls =
     (case getItem ls SUBMISSIONS of
        None \<Rightarrow> JArr []
      | Some stored \<Rightarrow>
          if stored = [] then JArr []
          else (case parse JSON stored of None \<Rightarrow> JArr [] | Some v \<Rightarrow> v))"

text \<open>
  \<^verbatim>\<open>saveSubmission\<close>: read all, \<^verbatim>\<open>push\<close>, write all. Only an array has \<^verbatim>\<open>push\<close>; on any
  other stored value the call throws a TypeError, which nothing catches.
\<close>

definition saveSubmission :: "json_api \<Rightarrow> jsval \<Rightarrow> storage \<Rightarrow> js_error + storage" where
  "saveSubmission JSON submission ls =
     (case getSubmissions JSON ls of
        JArr submissions \<Rightarrow>
          Inr (setItem ls SUBMISSIONS (stringify JSON (JArr (submissions @ [submission]))))
      | _ \<Rightarrow> Inl TypeError)"

text \<open>
  \<^verbatim>\<open>getMeetingsWithOverride\<close>: the parsed override when the item is a non-empty string
  that parses; the \<^verbatim>\<open>catch\<close> is empty and falls through to the caller's list.
\<close>

definition getMeetingsWithOverride :: "json_api \<Rightarrow> storage \<Rightarrow> jsval \<Rightarrow> jsval" where
  "getMeetingsWithOverride JSON ls meetingsFromFile =
     (case getItem ls MEETINGS_OVERRIDE of
        None \<Rightarrow> meetingsFromFile
      | Some override \<Rightarrow>
          if override = [] then meetingsFromFile
          else (case parse JSON override of None \<Rightarrow> meetingsFromFile | Some v \<Rightarrow> v))"

definition saveMeetingsOverride :: "json_api \<Rightarrow> jsval \<Rightarrow> storage \<Rightarrow> storage" where
  "saveMeetingsOverride JSON meetings ls = setItem ls MEETINGS_OVERRIDE (stringify JSON meetings)"

definition getAssignmentsWithOverride :: "json_api \<Rightarrow> storage \<Rightarrow> jsval \<Rightarrow> jsval" where
  "getAssignmentsWithOverride JSON ls assignmentsFromFile =
     (case getItem ls ASSIGNMENTS_OVERRIDE of
        None \<Rightarrow> assignmentsFromFile
      | Some override \<Rightarrow>
          if override = [] then assignmentsFromFile
          else (case parse JSON override of None \<Rightarrow> assignmentsFromFile | Some v \<Rightarrow> v))"

definition saveAssignmentsOverride :: "json_api \<Rightarrow> jsval \<Rightarrow> storage \<Rightarrow> storage" where
  "saveAssignmentsOverride JSON assignments ls =
     setItem ls ASSIGNMENTS_OVERRIDE (stringify JSON assignments)"

section \<open>Strings and numbers\<close>

text \<open>
  \<^verbatim>\<open>String.prototype.trim\<close> removes white space and line terminators from both ends.
  Among the code units below 256 these are TAB, LF, VT, FF, CR, SPACE and NBSP.
\<close>

definition is_space :: "char \<Rightarrow> bool" where
  "is_space c = (of_char c \<in> set [9, 10, 11, 12, 13, 32, 160 :: nat])"

definition trim :: "string \<Rightarrow> string" where
  "trim s = rev (dropWhile is_space (rev (dropWhile is_space s)))"

text \<open>The class \<^verbatim>\<open>\d\<close> of a regular expression: the ten ASCII digits. \<^verbatim>\<open>\D\<close> is the rest.\<close>

definition is_digit :: "char \<Rightarrow> bool" where
  "is_digit c = (48 \<le> (of_char c :: nat) \<and> (of_char c :: nat) \<le> 57)"

definition digit_val :: "char \<Rightarrow> nat" where
  "digit_val c = of_char c - 48"

definition digit_char :: "nat \<Rightarrow> char" where
  "digit_char d = char_of (48 + d)"

definition parseDigits :: "string \<Rightarrow> nat" where
  "parseDigits s = foldl (\<lambda>acc c. 10 * acc + digit_val c) 0 s"

text \<open>
  A JavaScript number is a double. The numbers of this program are natural numbers or
  \<^verbatim>\<open>NaN\<close>; \<open>toDouble n\<close> is the double nearest to the natural number \<open>n\<close> (53 significant
  bits, ties to even). Every natural number up to \<open>2 ^ 53\<close> is a double. Overflow to
  \<^verbatim>\<open>Infinity\<close> (from \<open>2 ^ 1024\<close> on) is not modelled.
\<close>

function bit_length :: "nat \<Rightarrow> nat" where
  "bit_length n = (if n = 0 then 0 else Suc (bit_length (n div 2)))"
  by pat_completeness auto
termination
  by (relation "measure id") auto

declare bit_length.simps [simp del]

definition toDouble :: "nat \<Rightarrow> nat" where
  "toDouble n =
     (if n \<le> 2 ^ 53 then n
      else
        let sh = bit_length n - 53;
            q = n div 2 ^ sh;
            r = n mod 2 ^ sh;
            half = 2 ^ (sh - 1)
        in (if half < r \<or> (r = half \<and> odd q) then q + 1 else q) * 2 ^ sh)"

text \<open>
  \<^verbatim>\<open>parseInt(s, 10)\<close> for a string that starts with neither white space nor a sign (the
  caller passes digits only): the leading digits, read in base 10 and rounded to a
  double, or \<^verbatim>\<open>NaN\<close> (\<open>None\<close>) when there is none.
\<close>

definition parseInt :: "string \<Rightarrow> nat option" where
  "parseInt s =
     (let ds = takeWhile is_digit s
      in if ds = [] then None else Some (toDouble (parseDigits ds)))"

text \<open>
  The string of a number inside a template literal. For a natural number up to \<open>2 ^ 53\<close>
  it is the decimal numeral. A larger double is printed with the fewest digits that
  identify it (and with an exponent from \<open>10 ^ 21\<close> on); that is not modelled.
\<close>

function NumberToString :: "nat \<Rightarrow> string" where
  "NumberToString n =
     (if n < 10 then [digit_char n] else NumberToString (n div 10) @ [digit_char (n mod 10)])"
  by pat_completeness auto
termination
  by (relation "measure id") auto

declare NumberToString.simps [simp del]

section \<open>Meeting ids (utils.js)\<close>

text \<open>
  One element of \<^verbatim>\<open>meetings.map(m => parseInt((m.id || '').replace(/\D/g, ''), 10))\<close>.
  \<^verbatim>\<open>m.id\<close> throws for a \<^verbatim>\<open>null\<close> entry; \<^verbatim>\<open>replace\<close> exists on strings only, so a truthy
  id that is not a string throws as well. \<^verbatim>\<open>replace(/\D/g, '')\<close> keeps the digits.
\<close>

definition meetingNumber :: "jsval \<Rightarrow> js_error + nat option" where
  "meetingNumber m =
     (if nullish m then Inl TypeError
      else (case (if truthy (field m ''id'') then field m ''id'' else JStr []) of
              JStr s \<Rightarrow> Inr (parseInt (filter is_digit s))
            | _ \<Rightarrow> Inl TypeError))"

text \<open>\<^verbatim>\<open>xs.map(f)\<close> for an \<open>f\<close> that may throw: the first exception ends the loop.\<close>

fun mapE :: "('a \<Rightarrow> js_error + 'b) \<Rightarrow> 'a list \<Rightarrow> js_error + 'b list" where
  "mapE f [] = Inr []"
| "mapE f (x # xs) =
     (case f x of
        Inl e \<Rightarrow> Inl e
      | Inr y \<Rightarrow> (case mapE f xs of Inl e \<Rightarrow> Inl e | Inr ys \<Rightarrow> Inr (y # ys)))"

text \<open>\<^verbatim>\<open>.filter(Boolean)\<close> on numbers drops \<^verbatim>\<open>NaN\<close> and zero.\<close>

fun filterBoolean :: "nat option list \<Rightarrow> nat list" where
  "filterBoolean [] = []"
| "filterBoolean (None # xs) = filterBoolean xs"
| "filterBoolean (Some n # xs) = (if n \<noteq> 0 then n # filterBoolean xs else filterBoolean xs)"

text \<open>
  \<^verbatim>\<open>generateMeetingId\<close>. \<^verbatim>\<open>Math.max(...ids)\<close> passes every number as an argument of one
  call. An engine accepts only so many arguments (the number depends on the engine and
  its stack) and throws a RangeError beyond; \<open>argLimit\<close> is that number. Within the limit
  the call gives the greatest of the numbers. \<^verbatim>\<open>max + 1\<close> is rounded to a double.
\<close>

definition generateMeetingId :: "nat \<Rightarrow> jsval list \<Rightarrow> js_error + string" where
  "generateMeetingId argLimit meetings =
     (case mapE meetingNumber meetings of
        Inl e \<Rightarrow> Inl e
      | Inr ns \<Rightarrow>
          let ids = filterBoolean ns
          in if ids \<noteq> [] \<and> argLimit < length ids then Inl RangeError
             else
               let max = (if ids \<noteq> [] then Max (set ids) else 0)
               in Inr (''m'' @ NumberToString (toDouble (max + 1))))"

section \<open>Authentication (auth.js)\<close>

text \<open>An entry of \<^verbatim>\<open>users.json\<close>; all three fields are strings.\<close>

record user =
  pid :: string
  password :: string
  role :: string

text \<open>
  \<^verbatim>\<open>users.find(u => String(u.pid).trim() === String(pid).trim() && u.password === password)\<close>,
  then \<^verbatim>\<open>user || null\<close>; \<open>None\<close> is \<^verbatim>\<open>null\<close>. \<^verbatim>\<open>String\<close> leaves a string as it is.
\<close>

definition validateUser :: "string \<Rightarrow> string \<Rightarrow> user list \<Rightarrow> user option" where
  "validateUser p pw users = find (\<lambda>u. trim (pid u) = trim p \<and> password u = pw) users"

section \<open>What the page shows\<close>

text \<open>
  The effects on the page that the claims speak of: \<open>Notice cls text ms\<close> is an alert
  element of class \<open>cls\<close> inserted into the form and removed again after \<open>ms\<close>
  milliseconds; \<open>Alert text\<close> is a blocking \<^verbatim>\<open>alert(text)\<close>; \<open>FormReset\<close> is
  \<^verbatim>\<open>formEl.reset()\<close>; \<open>Refresh\<close> is a call of the \<^verbatim>\<open>onRefresh\<close> callback.
\<close>

datatype ui_event =
    Notice string string nat
  | Alert string
  | FormReset
  | Refresh

section \<open>Senator dashboard (dashboard.js)\<close>







section \<open>Admin dashboard (admin.js)\<close>

subsection \<open>Committee assignments\<close>

text \<open>
  An entry of the assignments list: the senator's pid and the committees, which may be
  missing (the code reads \<^verbatim>\<open>a.committees || []\<close>).
\<close>

record assignment =
  a_pid :: string
  committees :: "string list option"

definition committees_or_empty :: "assignment \<Rightarrow> string list" where
  "committees_or_empty a = (case committees a of None \<Rightarrow> [] | Some cs \<Rightarrow> cs)"

definition assignment_to_js :: "assignment \<Rightarrow> jsval" where
  "assignment_to_js a =
     JObj ((''pid'', JStr (a_pid a)) #
           (case committees a of None \<Rightarrow> [] | Some cs \<Rightarrow> [(''committees'', JArr (map JStr cs))]))"

text \<open>\<^verbatim>\<open>xs.findIndex(p)\<close>; \<open>None\<close> is \<^verbatim>\<open>-1\<close>.\<close>

fun findIndex :: "('a \<Rightarrow> bool) \<Rightarrow> 'a list \<Rightarrow> nat option" where
  "findIndex p [] = None"
| "findIndex p (x # xs) =
     (if p x then Some 0 else (case findIndex p xs of None \<Rightarrow> None | Some i \<Rightarrow> Some (Suc i)))"

text \<open>
  \<^verbatim>\<open>getAssignedCommittees\<close> (dashboard.js): the committees of the first entry with the
  pid, \<^verbatim>\<open>[]\<close> when there is none.
\<close>

definition getAssignedCommittees :: "string \<Rightarrow> assignment list \<Rightarrow> string list" where
  "getAssignedCommittees p assignments =
     (case find (\<lambda>a. a_pid a = p) assignments of
        None \<Rightarrow> []
      | Some a \<Rightarrow> committees_or_empty a)"

text \<open>
  The click handler of \<^verbatim>\<open>addAssignment\<close>. The two inputs are the values of the text
  fields. \<^verbatim>\<open>committees.sort()\<close> orders strings by their code units.
\<close>

definition addAssignment ::
  "json_api \<Rightarrow> string \<Rightarrow> string \<Rightarrow> assignment list \<Rightarrow> storage \<Rightarrow> assignment list \<times> storage" where
  "addAssignment JSON assignPid assignCommittee assignments ls =
     (let p = trim assignPid; committee = trim assignCommittee
      in if p = [] \<or> committee = [] then (assignments, ls)
         else
           let assignments' =
                 (case findIndex (\<lambda>a. a_pid a = p) assignments of
                    Some idx \<Rightarrow>
                      (let cs = committees_or_empty (assignments ! idx)
                       in if committee \<notin> set cs
                          then assignments[idx := (assignments ! idx)
                                 \<lparr>committees := Some (sort (cs @ [committee]))\<rparr>]
                          else assignments)
                  | None \<Rightarrow> assignments @ [\<lparr>a_pid = p, committees = Some [committee]\<rparr>])
           in (assignments',
               saveAssignmentsOverride JSON (JArr (map assignment_to_js assignments')) ls))"

text \<open>
  The click handler of \<^verbatim>\<open>removeAssignment\<close>. \<^verbatim>\<open>assignments.splice(idx, 1)\<close> deletes the
  entry; nothing is saved when no entry has the pid.
\<close>

definition removeAssignment ::
  "json_api \<Rightarrow> string \<Rightarrow> string \<Rightarrow> assignment list \<Rightarrow> storage \<Rightarrow> assignment list \<times> storage" where
  "removeAssignment JSON assignPid assignCommittee assignments ls =
     (let p = trim assignPid; committee = trim assignCommittee
      in if p = [] \<or> committee = [] then (assignments, ls)
         else
           (case findIndex (\<lambda>a. a_pid a = p) assignments of
              Some idx \<Rightarrow>
                (let cs = filter (\<lambda>c. c \<noteq> committee) (committees_or_empty (assignments ! idx));
                     assignments' =
                       (if cs \<noteq> []
                        then assignments[idx := (assignments ! idx)\<lparr>committees := Some cs\<rparr>]
                        else take idx assignments @ drop (Suc idx) assignments)
                 in (assignments',
                     saveAssignmentsOverride JSON (JArr (map assignment_to_js assignments')) ls))
            | None \<Rightarrow> (assignments, ls)))"

subsection \<open>Adding a meeting\<close>

text \<open>
  The click handler of \<^verbatim>\<open>addMeetingBtn\<close>. \<open>today\<close> is
  \<^verbatim>\<open>new Date().toISOString().slice(0, 10)\<close>. \<^verbatim>\<open>committees[0]\<close> is the committee of the
  first meeting, \<^verbatim>\<open>undefined\<close> when there is no meeting. \<open>argLimit\<close> is the engine's limit
  on the arguments of a call, which \<^verbatim>\<open>generateMeetingId\<close> meets.
\<close>

definition addMeeting ::
  "json_api \<Rightarrow> nat \<Rightarrow> string \<Rightarrow> jsval list \<Rightarrow> storage
     \<Rightarrow> js_error + (jsval list \<times> storage)" where
  "addMeeting JSON argLimit today meetings ls =
     (case generateMeetingId argLimit meetings of
        Inl e \<Rightarrow> Inl e
      | Inr newId \<Rightarrow>
          let first = (case meetings of [] \<Rightarrow> JUndefined | m # ms \<Rightarrow> field m ''committee'');
              committee = (if truthy first then first else JStr ''New Committee'');
              meetings' = meetings @
                [JObj [(''id'', JStr newId), (''committee'', committee),
                       (''name'', JStr ''New Meeting''), (''date'', JStr today),
                       (''time'', JStr []), (''location'', JStr [])]]
          in Inr (meetings', saveMeetingsOverride JSON (JArr meetings') ls))"

subsection \<open>Importing submissions\<close>

text \<open>
  \<^verbatim>\<open>[...existing]\<close>: the elements of an array, the characters of a string; any other
  value is not iterable.
\<close>

fun spread :: "jsval \<Rightarrow> js_error + jsval list" where
  "spread (JArr xs) = Inr xs"
| "spread (JStr s) = Inr (map (\<lambda>c. JStr [c]) s)"
| "spread v = Inl TypeError"

text \<open>
  \<^verbatim>\<open>m.pid === s.pid && m.meetingId === s.meetingId && m.timestamp === s.timestamp\<close>
  for entries that are not \<^verbatim>\<open>null\<close>.
\<close>

definition same_key :: "jsval \<Rightarrow> jsval \<Rightarrow> bool" where
  "same_key m s =
     (strict_eq (field m ''pid'') (field s ''pid'') \<and>
      strict_eq (field m ''meetingId'') (field s ''meetingId'') \<and>
      strict_eq (field m ''timestamp'') (field s ''timestamp''))"

text \<open>
  \<^verbatim>\<open>merged.some(m => ...)\<close>: the entries are tried in order up to the first match;
  reading \<^verbatim>\<open>m.pid\<close> of a \<^verbatim>\<open>null\<close> entry throws.
\<close>

fun isDuplicate :: "jsval list \<Rightarrow> jsval \<Rightarrow> js_error + bool" where
  "isDuplicate [] s = Inr False"
| "isDuplicate (m # ms) s =
     (if nullish m then Inl TypeError
      else if same_key m s then Inr True
      else isDuplicate ms s)"

text \<open>The body of \<^verbatim>\<open>imported.forEach(s => ...)\<close>, from \<open>merged\<close> to the new \<open>merged\<close>.\<close>

definition importEntry :: "jsval list \<Rightarrow> jsval \<Rightarrow> js_error + jsval list" where
  "importEntry merged s =
     (if nullish s then Inl TypeError
      else if truthy (field s ''pid'') \<and> truthy (field s ''meetingName'') \<and>
              truthy (field s ''timestamp'')
      then (case isDuplicate merged s of
              Inl e \<Rightarrow> Inl e
            | Inr duplicate \<Rightarrow> Inr (if \<not> duplicate then merged @ [s] else merged))
      else Inr merged)"

fun importAll :: "jsval list \<Rightarrow> jsval list \<Rightarrow> js_error + jsval list" where
  "importAll merged [] = Inr merged"
| "importAll merged (s # ss) =
     (case importEntry merged s of
        Inl e \<Rightarrow> Inl e
      | Inr merged' \<Rightarrow> importAll merged' ss)"

definition invalidFile :: string where
  "invalidFile = ''Invalid file. Please select a valid submissions JSON export.''"

definition importedMessage :: "nat \<Rightarrow> nat \<Rightarrow> string" where
  "importedMessage importedLength mergedLength =
     ''Imported '' @ NumberToString importedLength @ '' submissions. Total: '' @
     NumberToString mergedLength"

text \<open>
  \<^verbatim>\<open>importSubmissions\<close>, the reader's \<^verbatim>\<open>onload\<close>. \<open>result\<close> is the text of the file;
  \<open>onRefresh\<close> says whether a callback was passed; the callback is taken not to throw.
  Whatever is thrown inside \<^verbatim>\<open>try\<close> before the store is written (the file does not
  parse, it is not an array, a TypeError) ends in the \<^verbatim>\<open>catch\<close>, and nothing is stored.
\<close>

definition importSubmissions ::
  "json_api \<Rightarrow> string \<Rightarrow> bool \<Rightarrow> storage \<Rightarrow> storage \<times> ui_event list" where
  "importSubmissions JSON result onRefresh ls =
     (case parse JSON result of
        None \<Rightarrow> (ls, [Alert invalidFile])
      | Some (JArr imported) \<Rightarrow>
          (case spread (getSubmissions JSON ls) of
             Inl e \<Rightarrow> (ls, [Alert invalidFile])
           | Inr existing \<Rightarrow>
               (case importAll existing imported of
                  Inl e \<Rightarrow> (ls, [Alert invalidFile])
                | Inr merged \<Rightarrow>
                    (setItem ls SUBMISSIONS (stringify JSON (JArr merged)),
                     (if onRefresh then [Refresh] else []) @
                     [Alert (importedMessage (length imported) (length merged))])))
      | Some v \<Rightarrow> (ls, [Alert invalidFile]))"

section \<open>Vocabulary of the properties\<close>

text \<open>
  No usable override under key \<open>k\<close>: the item was never written, or its text does not
  parse.
\<close>

definition absent_or_corrupt :: "json_api \<Rightarrow> storage \<Rightarrow> string \<Rightarrow> bool" where
  "absent_or_corrupt JSON ls k =
     (case getItem ls k of None \<Rightarrow> True | Some blob \<Rightarrow> parse JSON blob = None)"

text \<open>
  The invariant of the assignments list: every pid is in at most one entry, and no
  entry names a committee twice.
\<close>

definition assignments_ok :: "assignment list \<Rightarrow> bool" where
  "assignments_ok assignments =
     (distinct (map a_pid assignments) \<and>
      list_all (\<lambda>a. distinct (committees_or_empty a)) assignments)"




text \<open>
  The test of the import, \<^verbatim>\<open>s.pid && s.meetingName && s.timestamp\<close>, as a predicate.
\<close>

definition valid_entry :: "jsval \<Rightarrow> bool" where
  "valid_entry s =
     (truthy (field s ''pid'') \<and> truthy (field s ''meetingName'') \<and> truthy (field s ''timestamp''))"

text \<open>
  The three fields of the deduplication key are primitive values: strings, numbers,
  booleans, \<^verbatim>\<open>null\<close> or absent, and neither arrays nor objects.
\<close>

definition key_primitive :: "jsval \<Rightarrow> bool" where
  "key_primitive s =
     (primitive (field s ''pid'') \<and> primitive (field s ''meetingId'') \<and>
      primitive (field s ''timestamp''))"

text \<open>
  A meeting whose id has the pattern \<^verbatim>\<open>m<integer>\<close>: the letter \<^verbatim>\<open>m\<close>, then one or more
  digits that read as the number \<open>n\<close>.
\<close>

definition numbered :: "jsval \<Rightarrow> nat \<Rightarrow> bool" where
  "numbered m n =
     (case field m ''id'' of
        JStr (c # ds) \<Rightarrow> c = CHR ''m'' \<and> ds \<noteq> [] \<and> list_all is_digit ds \<and> parseDigits ds = n
      | _ \<Rightarrow> False)"

section \<open>Concrete data\<close>

text \<open>A JSON implementation that knows three documents, for the examples below.\<close>

definition demo_json :: json_api where
  \<open>demo_json = json_of_table
     [(''[]'', JArr []),
      (''[{"pid":"12345678"}]'', JArr [JObj [(''pid'', JStr ''12345678'')]]),
      (''[{"pid":"12345678"},{"pid":"12345678"}]'',
         JArr [JObj [(''pid'', JStr ''12345678'')], JObj [(''pid'', JStr ''12345678'')]])]\<close>

text \<open>The user directory of the README.\<close>

definition demo_users :: "user list" where
  "demo_users =
     [\<lparr>pid = ''admin001'', password = ''admin123'', role = ''admin''\<rparr>,
      \<lparr>pid = ''12345678'', password = ''senator1'', role = ''senator''\<rparr>]"

text \<open>
  An exported submission, a file that holds it twice, and a JSON that knows the file and
  the collection of the one submission.
\<close>

definition demo_entry :: jsval where
  "demo_entry =
     JObj [(''pid'', JStr ''12345678''), (''meetingName'', JStr ''Faculty Senate''),
           (''meetingId'', JStr ''m1''), (''timestamp'', JStr ''2025-03-01T10:00:00.000Z'')]"

definition demo_import_file :: string where
  \<open>demo_import_file =
     ''[{"pid":"12345678","meetingName":"Faculty Senate","meetingId":"m1","timestamp":"2025-03-01T10:00:00.000Z"},{"pid":"12345678","meetingName":"Faculty Senate","meetingId":"m1","timestamp":"2025-03-01T10:00:00.000Z"}]''\<close>

definition demo_import_json :: json_api where
  \<open>demo_import_json = json_of_table
     [(''[{"pid":"12345678","meetingName":"Faculty Senate","meetingId":"m1","timestamp":"2025-03-01T10:00:00.000Z"}]'',
         JArr [demo_entry]),
      (demo_import_file, JArr [demo_entry, demo_entry])]\<close>

text \<open>
  An entry whose pid is an array, a file that holds it once, and a JSON that knows the
  collections of one and of two such entries.
\<close>

definition odd_entry :: jsval where
  "odd_entry =
     JObj [(''pid'', JArr []), (''meetingName'', JStr ''Faculty Senate''),
           (''timestamp'', JStr ''2025-03-01T10:00:00.000Z'')]"

definition odd_import_file :: string where
  \<open>odd_import_file =
     ''[{"pid":[],"meetingName":"Faculty Senate","timestamp":"2025-03-01T10:00:00.000Z"}]''\<close>

definition odd_import_json :: json_api where
  \<open>odd_import_json = json_of_table
     [(odd_import_file, JArr [odd_entry]),
      (''[{"pid":[],"meetingName":"Faculty Senate","timestamp":"2025-03-01T10:00:00.000Z"},{"pid":[],"meetingName":"Faculty Senate","timestamp":"2025-03-01T10:00:00.000Z"}]'',
         JArr [odd_entry, odd_entry])]\<close>







text \<open>An assignments list whose one entry is not in sorted order.\<close>

definition demo_assignments :: "assignment list" where
  "demo_assignments =
     [\<lparr>a_pid = ''12345678'',
       committees = Some [''Student Life Committee'', ''Academic Affairs Committee'']\<rparr>]"







text \<open>The meetings \<^verbatim>\<open>m1\<close> and \<^verbatim>\<open>m3\<close>, and a meeting whose number is \<open>2 ^ 53\<close>.\<close>

definition demo_meetings :: "jsval list" where
  "demo_meetings =
     [JObj [(''id'', JStr ''m1''), (''committee'', JStr ''Commission on Faculty Affairs'')],
      JObj [(''id'', JStr ''m3''), (''committee'', JStr ''Student Life Committee'')]]"

definition huge_meeting :: jsval where
  "huge_meeting =
     JObj [(''id'', JStr ''m9007199254740992''), (''committee'', JStr ''Student Life Committee'')]"

section \<open>Facts about the store\<close>

lemma keys_distinct:
  "SESSION \<noteq> SUBMISSIONS" "SESSION \<noteq> MEETINGS_OVERRIDE" "SESSION \<noteq> ASSIGNMENTS_OVERRIDE"
  "SUBMISSIONS \<noteq> MEETINGS_OVERRIDE" "SUBMISSIONS \<noteq> ASSIGNMENTS_OVERRIDE"
  "MEETINGS_OVERRIDE \<noteq> ASSIGNMENTS_OVERRIDE"
  by (simp_all add: SESSION_def SUBMISSIONS_def MEETINGS_OVERRIDE_def ASSIGNMENTS_OVERRIDE_def)

lemma getItem_setItem_same: "getItem (setItem ls k v) k = Some v"
  by (simp add: getItem_def setItem_def)

lemma getItem_setItem_other: "k' \<noteq> k \<Longrightarrow> getItem (setItem ls k v) k' = getItem ls k'"
  by (simp add: getItem_def setItem_def)

lemma getSubmissions_written:
  assumes "round_trips JSON v"
  shows "getSubmissions JSON (setItem ls SUBMISSIONS (stringify JSON v)) = v"
  using assms by (simp add: getSubmissions_def round_trips_def getItem_setItem_same)

lemma saveSubmission_array:
  assumes "getSubmissions JSON ls = JArr C"
  shows "saveSubmission JSON s ls = Inr (setItem ls SUBMISSIONS (stringify JSON (JArr (C @ [s]))))"
  using assms by (simp add: saveSubmission_def)

lemma json_of_table_parse: "parse (json_of_table tbl) s = map_of tbl s"
  by (simp add: json_of_table_def)

lemma json_of_table_stringify:
  "stringify (json_of_table tbl) v =
     (case find (\<lambda>e. snd e = v) tbl of Some e \<Rightarrow> fst e | None \<Rightarrow> ''null'')"
  by (simp add: json_of_table_def)

lemma demo_json_round_trips:
  "round_trips demo_json (JArr [])"
  "round_trips demo_json (JArr [JObj [(''pid'', JStr ''12345678'')]])"
  "round_trips demo_json
     (JArr [JObj [(''pid'', JStr ''12345678'')], JObj [(''pid'', JStr ''12345678'')]])"
  by (simp_all add: round_trips_def demo_json_def json_of_table_def)

lemma getSubmissions_empty: "getSubmissions JSON Map.empty = JArr []"
  by (simp add: getSubmissions_def getItem_def)

section \<open>The override store\<close>

text \<open>
  C1. Override precedence. Whatever collection \<open>X\<close> is written, provided it survives
  persistence, a read returns exactly \<open>X\<close>, for every static fallback \<open>F\<close>: for meetings
  and assignments through \<^verbatim>\<open>saveMeetingsOverride\<close> and \<^verbatim>\<open>saveAssignmentsOverride\<close>, for
  submissions through \<^verbatim>\<open>saveSubmission\<close>, whose written collection is the prior collection
  \<open>C\<close> with the new record at the end.
\<close>

theorem override_precedence:
  assumes "round_trips JSON X"
  shows "getMeetingsWithOverride JSON (saveMeetingsOverride JSON X ls) F = X \<and>
         getAssignmentsWithOverride JSON (saveAssignmentsOverride JSON X ls) F = X \<and>
         (getSubmissions JSON ls = JArr C \<and> X = JArr (C @ [s]) \<longrightarrow>
            (\<exists>ls'. saveSubmission JSON s ls = Inr ls' \<and> getSubmissions JSON ls' = X))"
proof -
  have m: "getMeetingsWithOverride JSON (saveMeetingsOverride JSON X ls) F = X"
    using assms
    by (simp add: getMeetingsWithOverride_def saveMeetingsOverride_def round_trips_def
        getItem_setItem_same)
  have a: "getAssignmentsWithOverride JSON (saveAssignmentsOverride JSON X ls) F = X"
    using assms
    by (simp add: getAssignmentsWithOverride_def saveAssignmentsOverride_def round_trips_def
        getItem_setItem_same)
  have s: "\<exists>ls'. saveSubmission JSON s ls = Inr ls' \<and> getSubmissions JSON ls' = X"
    if "getSubmissions JSON ls = JArr C" and "X = JArr (C @ [s])"
    using that assms by (simp add: saveSubmission_array getSubmissions_written)
  from m a s show ?thesis by blast
qed

theorem override_precedence_witness:
  "round_trips demo_json (JArr ([] @ [JObj [(''pid'', JStr ''12345678'')]])) \<and>
   getMeetingsWithOverride demo_json
     (saveMeetingsOverride demo_json (JArr ([] @ [JObj [(''pid'', JStr ''12345678'')]])) Map.empty)
     (JArr []) = JArr ([] @ [JObj [(''pid'', JStr ''12345678'')]]) \<and>
   getAssignmentsWithOverride demo_json
     (saveAssignmentsOverride demo_json (JArr ([] @ [JObj [(''pid'', JStr ''12345678'')]])) Map.empty)
     (JArr []) = JArr ([] @ [JObj [(''pid'', JStr ''12345678'')]]) \<and>
   getSubmissions demo_json Map.empty = JArr [] \<and>
   (\<exists>ls'. saveSubmission demo_json (JObj [(''pid'', JStr ''12345678'')]) Map.empty = Inr ls' \<and>
      getSubmissions demo_json ls' = JArr ([] @ [JObj [(''pid'', JStr ''12345678'')]]))"
proof -
  have r: "round_trips demo_json (JArr ([] @ [JObj [(''pid'', JStr ''12345678'')]]))"
    using demo_json_round_trips(2) by simp
  show ?thesis
    using override_precedence [OF r, of Map.empty "JArr []" "[]" "JObj [(''pid'', JStr ''12345678'')]"]
      r getSubmissions_empty [of demo_json]
    by blast
qed

text \<open>
  C2. Fallback and lenient recovery. When no override was ever written for an entity
  type, or the text stored for it does not parse, the read returns the fallback
  unchanged: the caller's \<open>F\<close> for meetings and assignments, the empty list (the fallback
  built into \<^verbatim>\<open>getSubmissions\<close>) for submissions. The three reads are total functions
  with no error result: they never throw.
\<close>

theorem fallback_without_usable_override:
  "(absent_or_corrupt JSON ls MEETINGS_OVERRIDE \<longrightarrow> getMeetingsWithOverride JSON ls F = F) \<and>
   (absent_or_corrupt JSON ls ASSIGNMENTS_OVERRIDE \<longrightarrow> getAssignmentsWithOverride JSON ls F = F) \<and>
   (absent_or_corrupt JSON ls SUBMISSIONS \<longrightarrow> getSubmissions JSON ls = JArr [])"
  by (simp add: absent_or_corrupt_def getMeetingsWithOverride_def getAssignmentsWithOverride_def
      getSubmissions_def split: option.splits)

theorem fallback_without_usable_override_witness:
  \<open>absent_or_corrupt demo_json ([MEETINGS_OVERRIDE \<mapsto> ''{"id'', SUBMISSIONS \<mapsto> ''[{"pid":'']) MEETINGS_OVERRIDE \<and>
   getMeetingsWithOverride demo_json ([MEETINGS_OVERRIDE \<mapsto> ''{"id'', SUBMISSIONS \<mapsto> ''[{"pid":''])
     (JArr [JObj [(''pid'', JStr ''12345678'')]]) = JArr [JObj [(''pid'', JStr ''12345678'')]] \<and>
   absent_or_corrupt demo_json ([MEETINGS_OVERRIDE \<mapsto> ''{"id'', SUBMISSIONS \<mapsto> ''[{"pid":'']) ASSIGNMENTS_OVERRIDE \<and>
   getAssignmentsWithOverride demo_json ([MEETINGS_OVERRIDE \<mapsto> ''{"id'', SUBMISSIONS \<mapsto> ''[{"pid":''])
     (JArr [JObj [(''pid'', JStr ''12345678'')]]) = JArr [JObj [(''pid'', JStr ''12345678'')]] \<and>
   absent_or_corrupt demo_json ([MEETINGS_OVERRIDE \<mapsto> ''{"id'', SUBMISSIONS \<mapsto> ''[{"pid":'']) SUBMISSIONS \<and>
   getSubmissions demo_json ([MEETINGS_OVERRIDE \<mapsto> ''{"id'', SUBMISSIONS \<mapsto> ''[{"pid":'']) = JArr []\<close>
proof -
  let ?ls = \<open>[MEETINGS_OVERRIDE \<mapsto> ''{"id'', SUBMISSIONS \<mapsto> ''[{"pid":'']\<close>
  have h1: "absent_or_corrupt demo_json ?ls MEETINGS_OVERRIDE"
    by (simp add: absent_or_corrupt_def getItem_def keys_distinct demo_json_def json_of_table_def)
  have h2: "absent_or_corrupt demo_json ?ls ASSIGNMENTS_OVERRIDE"
    by (simp add: absent_or_corrupt_def getItem_def keys_distinct [symmetric])
  have h3: "absent_or_corrupt demo_json ?ls SUBMISSIONS"
    by (simp add: absent_or_corrupt_def getItem_def demo_json_def json_of_table_def)
  show ?thesis
    using fallback_without_usable_override
      [of demo_json ?ls "JArr [JObj [(''pid'', JStr ''12345678'')]]"] h1 h2 h3
    by blast
qed

section \<open>Recording submissions\<close>

text \<open>
  C7. Append-only record. With \<open>C\<close> the prior collection, \<^verbatim>\<open>saveSubmission\<close> leaves the
  persisted collection equal to \<open>C\<close> with the submission at the end and every other item
  of the store as it was. Nothing is deduplicated: a second record \<open>s'\<close>, which may be
  \<open>s\<close> again, is appended after the first.
\<close>

theorem record_appends:
  assumes "getSubmissions JSON ls = JArr C"
    and "round_trips JSON (JArr (C @ [s]))"
    and "round_trips JSON (JArr (C @ [s, s']))"
  shows "\<exists>ls1 ls2.
           saveSubmission JSON s ls = Inr ls1 \<and>
           getSubmissions JSON ls1 = JArr (C @ [s]) \<and>
           (\<forall>k. k \<noteq> SUBMISSIONS \<longrightarrow> getItem ls1 k = getItem ls k) \<and>
           saveSubmission JSON s' ls1 = Inr ls2 \<and>
           getSubmissions JSON ls2 = JArr (C @ [s, s'])"
proof -
  let ?ls1 = "setItem ls SUBMISSIONS (stringify JSON (JArr (C @ [s])))"
  let ?ls2 = "setItem ?ls1 SUBMISSIONS (stringify JSON (JArr ((C @ [s]) @ [s'])))"
  have s1: "saveSubmission JSON s ls = Inr ?ls1"
    by (rule saveSubmission_array [OF assms(1)])
  have g1: "getSubmissions JSON ?ls1 = JArr (C @ [s])"
    by (rule getSubmissions_written [OF assms(2)])
  have f1: "\<forall>k. k \<noteq> SUBMISSIONS \<longrightarrow> getItem ?ls1 k = getItem ls k"
    by (simp add: getItem_setItem_other)
  have s2: "saveSubmission JSON s' ?ls1 = Inr ?ls2"
    by (rule saveSubmission_array [OF g1])
  have g2: "getSubmissions JSON ?ls2 = JArr (C @ [s, s'])"
    using getSubmissions_written [OF assms(3), of ?ls1] by simp
  from s1 g1 f1 s2 g2 show ?thesis by blast
qed

theorem record_appends_witness:
  "getSubmissions demo_json Map.empty = JArr [] \<and>
   round_trips demo_json (JArr ([] @ [JObj [(''pid'', JStr ''12345678'')]])) \<and>
   round_trips demo_json
     (JArr ([] @ [JObj [(''pid'', JStr ''12345678'')], JObj [(''pid'', JStr ''12345678'')]])) \<and>
   (\<exists>ls1 ls2.
      saveSubmission demo_json (JObj [(''pid'', JStr ''12345678'')]) Map.empty = Inr ls1 \<and>
      getSubmissions demo_json ls1 = JArr ([] @ [JObj [(''pid'', JStr ''12345678'')]]) \<and>
      (\<forall>k. k \<noteq> SUBMISSIONS \<longrightarrow> getItem ls1 k = getItem Map.empty k) \<and>
      saveSubmission demo_json (JObj [(''pid'', JStr ''12345678'')]) ls1 = Inr ls2 \<and>
      getSubmissions demo_json ls2 =
        JArr ([] @ [JObj [(''pid'', JStr ''12345678'')], JObj [(''pid'', JStr ''12345678'')]]))"
proof -
  have r1: "round_trips demo_json (JArr ([] @ [JObj [(''pid'', JStr ''12345678'')]]))"
    using demo_json_round_trips(2) by simp
  have r2: "round_trips demo_json
     (JArr ([] @ [JObj [(''pid'', JStr ''12345678'')], JObj [(''pid'', JStr ''12345678'')]]))"
    using demo_json_round_trips(3) by simp
  show ?thesis
    using record_appends [OF getSubmissions_empty r1 r2] getSubmissions_empty [of demo_json] r1 r2
    by blast
qed

section \<open>Credentials\<close>

lemma dropWhile_spaces: "list_all is_space l \<Longrightarrow> dropWhile is_space (l @ s) = dropWhile is_space s"
  by (induction l) auto

lemma trim_padded:
  assumes l: "list_all is_space l" and r: "list_all is_space r"
  shows "trim (l @ s @ r) = trim s"
proof -
  have left: "dropWhile is_space (l @ s @ r) = dropWhile is_space (s @ r)"
    by (rule dropWhile_spaces [OF l])
  have right: "dropWhile is_space (rev (dropWhile is_space (s @ r))) =
      dropWhile is_space (rev (dropWhile is_space s))"
  proof (cases "list_all is_space s")
    case True
    then have e: "dropWhile is_space (s @ r) = []" "dropWhile is_space s = []"
      using r by (auto simp: list_all_iff)
    show ?thesis unfolding e ..
  next
    case False
    then have e: "dropWhile is_space (s @ r) = dropWhile is_space s @ r"
      by (auto simp: dropWhile_append list_all_iff)
    have "dropWhile is_space (rev r @ rev (dropWhile is_space s)) =
        dropWhile is_space (rev (dropWhile is_space s))"
      using r by (intro dropWhile_spaces) (simp add: list_all_iff)
    then show ?thesis unfolding e rev_append .
  qed
  show ?thesis
    unfolding trim_def left right ..
qed

text \<open>
  C5. Credential validation. \<^verbatim>\<open>validateUser\<close> returns an entry of the directory exactly
  when some entry has the trimmed pid and the exact password, and the entry it returns
  is such an entry; otherwise it returns \<^verbatim>\<open>null\<close>. In particular a pid padded with white
  space on both sides still finds its entry.
\<close>

theorem validateUser_correct:
  "(case validateUser p pw users of
      None \<Rightarrow> \<not> (\<exists>u \<in> set users. trim (pid u) = trim p \<and> password u = pw)
    | Some u \<Rightarrow> u \<in> set users \<and> trim (pid u) = trim p \<and> password u = pw) \<and>
   (u \<in> set users \<and> list_all is_space l \<and> list_all is_space r \<longrightarrow>
      validateUser (l @ pid u @ r) (password u) users \<noteq> None)"
proof -
  have a: "case validateUser p pw users of
      None \<Rightarrow> \<not> (\<exists>u \<in> set users. trim (pid u) = trim p \<and> password u = pw)
    | Some u \<Rightarrow> u \<in> set users \<and> trim (pid u) = trim p \<and> password u = pw"
    by (auto simp: validateUser_def find_None_iff find_Some_iff split: option.splits)
  have b: "validateUser (l @ pid u @ r) (password u) users \<noteq> None"
    if "u \<in> set users" "list_all is_space l" "list_all is_space r"
    using that by (auto simp: validateUser_def find_None_iff trim_padded)
  from a b show ?thesis by blast
qed

theorem validateUser_correct_witness:
  "validateUser ''12345678'' ''senator1'' demo_users =
     Some \<lparr>pid = ''12345678'', password = ''senator1'', role = ''senator''\<rparr> \<and>
   validateUser ''12345678'' ''wrong'' demo_users = None \<and>
   \<lparr>pid = ''12345678'', password = ''senator1'', role = ''senator''\<rparr> \<in> set demo_users \<and>
   list_all is_space '' '' \<and> list_all is_space ''  '' \<and>
   validateUser ('' '' @ ''12345678'' @ ''  '') ''senator1'' demo_users \<noteq> None"
  using validateUser_correct [where p = "''12345678''" and pw = "''senator1''"
      and users = demo_users and l = "'' ''" and r = "''  ''"
      and u = "\<lparr>pid = ''12345678'', password = ''senator1'', role = ''senator''\<rparr>"]
    validateUser_correct [where p = "''12345678''" and pw = "''wrong''" and users = demo_users]
  by (simp add: demo_users_def validateUser_def trim_def is_space_def)

section \<open>Attachments\<close>






section \<open>Committee assignments\<close>

lemma findIndex_None: "findIndex P xs = None \<longleftrightarrow> (\<forall>x \<in> set xs. \<not> P x)"
  by (induction xs) (auto split: option.splits)

lemma findIndex_Some:
  "findIndex P xs = Some i \<Longrightarrow> i < length xs \<and> P (xs ! i) \<and> find P xs = Some (xs ! i)"
  by (induction xs arbitrary: i) (auto split: option.splits if_splits)

lemma find_append_new:
  "\<forall>x \<in> set xs. \<not> P x \<Longrightarrow> P y \<Longrightarrow> find P (xs @ [y]) = Some y"
  by (induction xs) auto

lemma find_update_first:
  "findIndex P xs = Some i \<Longrightarrow> P y \<Longrightarrow> find P (xs[i := y]) = Some y"
  by (induction xs arbitrary: i) (auto split: option.splits if_splits)

lemma distinct_remove_nth:
  "distinct xs \<Longrightarrow> distinct (take i xs @ drop (Suc i) xs)"
proof -
  assume d: "distinct xs"
  have "set (take i xs) \<inter> set (drop (Suc i) xs) \<subseteq> set (take i xs) \<inter> set (drop i xs)"
    using set_drop_subset_set_drop [of i "Suc i" xs] by auto
  moreover have "set (take i xs) \<inter> set (drop i xs) = {}"
    using d distinct_append [of "take i xs" "drop i xs"] by simp
  ultimately show ?thesis
    using d by (auto simp: distinct_take distinct_drop)
qed

lemma list_all_update:
  "list_all Q xs \<Longrightarrow> Q y \<Longrightarrow> list_all Q (xs[i := y])"
  by (induction xs arbitrary: i) (auto split: nat.splits)

lemma list_all_remove_nth:
  "list_all Q xs \<Longrightarrow> list_all Q (take i xs @ drop (Suc i) xs)"
  by (auto simp: list_all_iff dest: in_set_takeD in_set_dropD)

lemma list_all_nth: "list_all Q xs \<Longrightarrow> i < length xs \<Longrightarrow> Q (xs ! i)"
  by (simp add: list_all_length)

lemma map_update_same:
  "i < length xs \<Longrightarrow> f y = f (xs ! i) \<Longrightarrow> map f (xs[i := y]) = map f xs"
  by (simp add: map_update list_update_same_conv)

lemma addAssignment_ok:
  assumes "assignments_ok as"
  shows "assignments_ok (fst (addAssignment JSON ip ic as ls))"
proof -
  let ?p = "trim ip" and ?c = "trim ic"
  show ?thesis
  proof (cases "findIndex (\<lambda>a. a_pid a = ?p) as")
    case None
    then have "?p \<notin> set (map a_pid as)"
      by (auto simp: findIndex_None)
    then show ?thesis
      using assms None
      by (simp add: addAssignment_def Let_def assignments_ok_def committees_or_empty_def)
  next
    case (Some idx)
    note ix = findIndex_Some [OF Some]
    have d: "distinct (committees_or_empty (as ! idx))"
      using assms ix list_all_nth [of "\<lambda>a. distinct (committees_or_empty a)" as idx]
      by (simp add: assignments_ok_def)
    let ?a' = "(as ! idx)\<lparr>committees := Some (sort (committees_or_empty (as ! idx) @ [?c]))\<rparr>"
    have "assignments_ok (as[idx := ?a'])"
      if "?c \<notin> set (committees_or_empty (as ! idx))"
      using assms ix d that
      by (simp add: assignments_ok_def map_update_same list_all_update committees_or_empty_def)
    then show ?thesis
      using assms Some
      by (simp add: addAssignment_def Let_def)
  qed
qed

lemma removeAssignment_ok:
  assumes "assignments_ok as"
  shows "assignments_ok (fst (removeAssignment JSON ip ic as ls))"
proof -
  let ?p = "trim ip" and ?c = "trim ic"
  show ?thesis
  proof (cases "findIndex (\<lambda>a. a_pid a = ?p) as")
    case None
    then show ?thesis
      using assms by (simp add: removeAssignment_def Let_def)
  next
    case (Some idx)
    note ix = findIndex_Some [OF Some]
    let ?cs = "filter (\<lambda>c. c \<noteq> ?c) (committees_or_empty (as ! idx))"
    let ?a' = "(as ! idx)\<lparr>committees := Some ?cs\<rparr>"
    have d: "distinct (committees_or_empty (as ! idx))"
      using assms ix list_all_nth [of "\<lambda>a. distinct (committees_or_empty a)" as idx]
      by (simp add: assignments_ok_def)
    have u: "assignments_ok (as[idx := ?a'])"
      using assms ix d
      by (simp add: assignments_ok_def map_update_same list_all_update committees_or_empty_def)
    have r: "assignments_ok (take idx as @ drop (Suc idx) as)"
      using assms distinct_remove_nth [of "map a_pid as" idx]
        list_all_remove_nth [of "\<lambda>a. distinct (committees_or_empty a)" as idx]
      by (simp add: assignments_ok_def take_map drop_map)
    show ?thesis
      using assms Some u r
      by (simp add: removeAssignment_def Let_def)
  qed
qed

lemma addAssignment_new_committee:
  assumes "trim ip \<noteq> []" "trim ic \<noteq> []"
    and "trim ic \<notin> set (getAssignedCommittees (trim ip) as)"
  shows "getAssignedCommittees (trim ip) (fst (addAssignment JSON ip ic as ls)) =
           sort (getAssignedCommittees (trim ip) as @ [trim ic])"
proof (cases "findIndex (\<lambda>a. a_pid a = trim ip) as")
  case None
  then have n: "\<forall>a \<in> set as. a_pid a \<noteq> trim ip"
    by (simp add: findIndex_None)
  then have "find (\<lambda>a. a_pid a = trim ip) as = None"
    by (simp add: find_None_iff)
  then show ?thesis
    using assms None n
    by (simp add: addAssignment_def Let_def getAssignedCommittees_def find_append_new
        committees_or_empty_def)
next
  case (Some idx)
  note ix = findIndex_Some [OF Some]
  let ?a' = "(as ! idx)\<lparr>committees := Some (sort (committees_or_empty (as ! idx) @ [trim ic]))\<rparr>"
  have "find (\<lambda>a. a_pid a = trim ip) (as[idx := ?a']) = Some ?a'"
    using ix by (intro find_update_first [OF Some]) simp
  then show ?thesis
    using assms Some ix
    by (simp add: addAssignment_def Let_def getAssignedCommittees_def
        committees_or_empty_def)
qed

lemma addAssignment_present:
  assumes "trim ic \<in> set (getAssignedCommittees (trim ip) as)"
  shows "fst (addAssignment JSON ip ic as ls) = as"
proof (cases "findIndex (\<lambda>a. a_pid a = trim ip) as")
  case None
  then have "find (\<lambda>a. a_pid a = trim ip) as = None"
    by (simp add: findIndex_None find_None_iff)
  then show ?thesis
    using assms by (simp add: getAssignedCommittees_def)
next
  case (Some idx)
  note ix = findIndex_Some [OF Some]
  show ?thesis
    using assms Some ix
    by (simp add: addAssignment_def Let_def getAssignedCommittees_def)
qed

text \<open>
  C9. Committee-assignment invariant. If every pid is in at most one entry and no entry
  names a committee twice, the same holds after the add handler and after the remove
  handler. When the add handler adds a committee that the senator did not have, the
  senator's list afterwards is sorted and holds the old committees and the new one. When
  the senator already has the committee, the list of assignments is unchanged.
\<close>

theorem assignments_invariant:
  assumes "assignments_ok assignments"
  shows "assignments_ok (fst (addAssignment JSON assignPid assignCommittee assignments ls)) \<and>
         assignments_ok (fst (removeAssignment JSON assignPid assignCommittee assignments ls)) \<and>
         (trim assignPid \<noteq> [] \<and> trim assignCommittee \<noteq> [] \<and>
          trim assignCommittee \<notin> set (getAssignedCommittees (trim assignPid) assignments) \<longrightarrow>
            sorted (getAssignedCommittees (trim assignPid)
              (fst (addAssignment JSON assignPid assignCommittee assignments ls))) \<and>
            set (getAssignedCommittees (trim assignPid)
              (fst (addAssignment JSON assignPid assignCommittee assignments ls))) =
              insert (trim assignCommittee)
                (set (getAssignedCommittees (trim assignPid) assignments))) \<and>
         (trim assignCommittee \<in> set (getAssignedCommittees (trim assignPid) assignments) \<longrightarrow>
            fst (addAssignment JSON assignPid assignCommittee assignments ls) = assignments)"
proof -
  have srt: "sorted (getAssignedCommittees (trim assignPid)
              (fst (addAssignment JSON assignPid assignCommittee assignments ls))) \<and>
            set (getAssignedCommittees (trim assignPid)
              (fst (addAssignment JSON assignPid assignCommittee assignments ls))) =
              insert (trim assignCommittee)
                (set (getAssignedCommittees (trim assignPid) assignments))"
    if "trim assignPid \<noteq> []" "trim assignCommittee \<noteq> []"
      "trim assignCommittee \<notin> set (getAssignedCommittees (trim assignPid) assignments)"
    using addAssignment_new_committee [OF that, of JSON ls] by simp
  show ?thesis
    using addAssignment_ok [OF assms] removeAssignment_ok [OF assms] srt
      addAssignment_present [of assignCommittee assignPid assignments JSON ls]
    by blast
qed

lemma demo_assignments_ok: "assignments_ok demo_assignments"
  by (simp add: assignments_ok_def demo_assignments_def committees_or_empty_def)

theorem assignments_invariant_witness:
  "assignments_ok demo_assignments \<and>
   fst (addAssignment demo_json '' 12345678 '' ''Commission on Faculty Affairs'' demo_assignments
          Map.empty) =
     [\<lparr>a_pid = ''12345678'',
       committees = Some [''Academic Affairs Committee'', ''Commission on Faculty Affairs'',
                          ''Student Life Committee'']\<rparr>] \<and>
   assignments_ok (fst (addAssignment demo_json '' 12345678 '' ''Commission on Faculty Affairs''
          demo_assignments Map.empty)) \<and>
   sorted (getAssignedCommittees (trim '' 12345678 '')
     (fst (addAssignment demo_json '' 12345678 '' ''Commission on Faculty Affairs''
          demo_assignments Map.empty))) \<and>
   fst (addAssignment demo_json ''12345678'' ''Student Life Committee'' demo_assignments Map.empty) =
     demo_assignments \<and>
   fst (removeAssignment demo_json ''12345678'' ''Student Life Committee'' demo_assignments
          Map.empty) =
     [\<lparr>a_pid = ''12345678'', committees = Some [''Academic Affairs Committee'']\<rparr>] \<and>
   assignments_ok (fst (removeAssignment demo_json ''12345678'' ''Student Life Committee''
          demo_assignments Map.empty))"
proof -
  have t1: "trim '' 12345678 '' = ''12345678''" "trim ''12345678'' = ''12345678''"
    "trim ''Commission on Faculty Affairs'' = ''Commission on Faculty Affairs''"
    "trim ''Student Life Committee'' = ''Student Life Committee''"
    by (simp_all add: trim_def is_space_def)
  have g: "getAssignedCommittees ''12345678'' demo_assignments =
      [''Student Life Committee'', ''Academic Affairs Committee'']"
    by (simp add: getAssignedCommittees_def demo_assignments_def committees_or_empty_def)
  have a: "fst (addAssignment demo_json '' 12345678 '' ''Commission on Faculty Affairs''
      demo_assignments Map.empty) =
     [\<lparr>a_pid = ''12345678'',
       committees = Some [''Academic Affairs Committee'', ''Commission on Faculty Affairs'',
                          ''Student Life Committee'']\<rparr>]"
    by (simp add: addAssignment_def Let_def t1 demo_assignments_def committees_or_empty_def)
  have r: "fst (removeAssignment demo_json ''12345678'' ''Student Life Committee'' demo_assignments
          Map.empty) =
     [\<lparr>a_pid = ''12345678'', committees = Some [''Academic Affairs Committee'']\<rparr>]"
    by (simp add: removeAssignment_def Let_def t1 demo_assignments_def committees_or_empty_def)
  show ?thesis
    using assignments_invariant [OF demo_assignments_ok, of demo_json "'' 12345678 ''"
        "''Commission on Faculty Affairs''" Map.empty]
      assignments_invariant [OF demo_assignments_ok, of demo_json "''12345678''"
        "''Student Life Committee''" Map.empty]
      demo_assignments_ok a r
    by (simp add: t1 g)
qed

section \<open>Importing submissions\<close>


lemma importEntry_invalid:
  "\<not> nullish s \<Longrightarrow> \<not> valid_entry s \<Longrightarrow> importEntry merged s = Inr merged"
  by (auto simp: importEntry_def valid_entry_def)

lemma importEntry_valid:
  "\<not> nullish s \<Longrightarrow> valid_entry s \<Longrightarrow>
   importEntry merged s =
     (case isDuplicate merged s of
        Inl e \<Rightarrow> Inl e
      | Inr duplicate \<Rightarrow> Inr (if duplicate then merged else merged @ [s]))"
  by (auto simp: importEntry_def valid_entry_def split: sum.splits)


lemma isDuplicate_append:
  "isDuplicate (xs @ ys) s =
     (case isDuplicate xs s of
        Inl e \<Rightarrow> Inl e
      | Inr d \<Rightarrow> if d then Inr True else isDuplicate ys s)"
  by (induction xs) auto

lemma same_key_self: "key_primitive s \<Longrightarrow> same_key s s"
  by (simp add: same_key_def key_primitive_def strict_eq_def)



lemma importEntry_then_duplicate:
  assumes "importEntry E s = Inr E'" "valid_entry s" "key_primitive s"
  shows "isDuplicate (E' @ rest) s = Inr True"
proof -
  have nn: "\<not> nullish s"
    using assms(1) by (auto simp: importEntry_def split: if_splits)
  show ?thesis
  proof (cases "isDuplicate E s")
    case (Inl e)
    then show ?thesis
      using assms(1,2) nn by (simp add: importEntry_valid)
  next
    case (Inr d)
    show ?thesis
    proof (cases d)
      case True
      then show ?thesis
        using assms(1,2) nn Inr by (simp add: importEntry_valid isDuplicate_append)
    next
      case False
      then have "E' = E @ [s]"
        using assms(1,2) nn Inr by (simp add: importEntry_valid)
      then show ?thesis
        using Inr False nn same_key_self [OF assms(3)] by (simp add: isDuplicate_append)
    qed
  qed
qed

lemma importEntry_extends: "importEntry E s = Inr E' \<Longrightarrow> \<exists>added. E' = E @ added"
  by (auto simp: importEntry_def split: if_splits sum.splits)

lemma importAll_extends: "importAll E L = Inr M \<Longrightarrow> \<exists>added. M = E @ added"
proof (induction L arbitrary: E)
  case Nil
  then show ?case by simp
next
  case (Cons s L)
  then obtain E' where e: "importEntry E s = Inr E'" and r: "importAll E' L = Inr M"
    by (auto split: sum.splits)
  from importEntry_extends [OF e] Cons.IH [OF r] show ?case by auto
qed

lemma importEntry_again:
  assumes "importEntry E s = Inr E'" "key_primitive s"
  shows "importEntry (E' @ rest) s = Inr (E' @ rest)"
proof -
  have nn: "\<not> nullish s"
    using assms(1) by (auto simp: importEntry_def split: if_splits)
  show ?thesis
  proof (cases "valid_entry s")
    case True
    then show ?thesis
      using importEntry_then_duplicate [OF assms(1) True assms(2), of rest] nn
      by (simp add: importEntry_valid)
  next
    case False
    then show ?thesis using nn by (simp add: importEntry_invalid)
  qed
qed

lemma importAll_again:
  assumes "importAll E L = Inr M" "list_all key_primitive L"
  shows "importAll M L = Inr M"
  using assms
proof (induction L arbitrary: E)
  case Nil
  then show ?case by simp
next
  case (Cons s L)
  then obtain E' where e: "importEntry E s = Inr E'" and r: "importAll E' L = Inr M"
    by (auto split: sum.splits)
  from importAll_extends [OF r] obtain rest where m: "M = E' @ rest" by blast
  have "importEntry M s = Inr M"
    unfolding m using importEntry_again [OF e] Cons.prems(2) by simp
  moreover have "importAll M L = Inr M"
    using Cons.IH [OF r] Cons.prems(2) by simp
  ultimately show ?case by simp
qed

lemma setItem_twice: "setItem (setItem ls k v) k v = setItem ls k v"
  by (simp add: setItem_def)

lemma import_twice:
  assumes "parse JSON result = Some (JArr L)"
    and "list_all key_primitive L"
    and "\<forall>E M. spread (getSubmissions JSON ls) = Inr E \<and> importAll E L = Inr M
           \<longrightarrow> round_trips JSON (JArr M)"
  shows "fst (importSubmissions JSON result r2 (fst (importSubmissions JSON result r1 ls))) =
         fst (importSubmissions JSON result r1 ls)"
proof (cases "spread (getSubmissions JSON ls)")
  case (Inl e)
  then show ?thesis
    using assms(1) by (simp add: importSubmissions_def)
next
  case (Inr E)
  show ?thesis
  proof (cases "importAll E L")
    case (Inl e)
    then show ?thesis
      using assms(1) Inr by (simp add: importSubmissions_def)
  next
    case Inr2: (Inr M)
    let ?ls1 = "setItem ls SUBMISSIONS (stringify JSON (JArr M))"
    have rt: "round_trips JSON (JArr M)"
      using assms(3) Inr Inr2 by blast
    have first: "fst (importSubmissions JSON result r1 ls) = ?ls1"
      using assms(1) Inr Inr2 by (simp add: importSubmissions_def)
    have g: "getSubmissions JSON ?ls1 = JArr M"
      by (rule getSubmissions_written [OF rt])
    have again: "importAll M L = Inr M"
      by (rule importAll_again [OF Inr2 assms(2)])
    have "fst (importSubmissions JSON result r2 ?ls1) = ?ls1"
      using assms(1) g again by (simp add: importSubmissions_def setItem_twice)
    then show ?thesis
      by (simp add: first)
  qed
qed

lemma isDuplicate_found:
  "list_all (\<lambda>m. \<not> nullish m) merged \<Longrightarrow> \<exists>m \<in> set merged. same_key m s \<Longrightarrow>
   isDuplicate merged s = Inr True"
  by (induction merged) auto


lemma importEntry_duplicate:
  assumes "\<not> nullish s" "list_all (\<lambda>m. \<not> nullish m) merged" "\<exists>m \<in> set merged. same_key m s"
  shows "importEntry merged s = Inr merged"
  using assms isDuplicate_found [OF assms(2,3)]
  by (cases "valid_entry s") (simp_all add: importEntry_valid importEntry_invalid)

text \<open>
  C3. Import idempotence, for candidates whose key fields are primitive values. Let the
  file hold the candidate list \<open>L\<close>, let the pid, meetingId and timestamp of every
  candidate be a string, a number, a boolean, \<^verbatim>\<open>null\<close> or absent, and let the collection
  that an import writes survive persistence. Then a second import of the same file
  leaves the store, and so the collection read from it, as the first import left it. A
  candidate whose key is the key of an entry already in the list is dropped.
\<close>

theorem import_idempotent:
  assumes "parse JSON result = Some (JArr L)"
    and "list_all key_primitive L"
    and "\<forall>E M. spread (getSubmissions JSON ls) = Inr E \<and> importAll E L = Inr M
           \<longrightarrow> round_trips JSON (JArr M)"
  shows "fst (importSubmissions JSON result r2 (fst (importSubmissions JSON result r1 ls))) =
           fst (importSubmissions JSON result r1 ls) \<and>
         getSubmissions JSON
           (fst (importSubmissions JSON result r2 (fst (importSubmissions JSON result r1 ls)))) =
           getSubmissions JSON (fst (importSubmissions JSON result r1 ls)) \<and>
         (\<not> nullish s \<and> list_all (\<lambda>m. \<not> nullish m) merged \<and> (\<exists>m \<in> set merged. same_key m s)
            \<longrightarrow> importEntry merged s = Inr merged)"
  using import_twice [OF assms] importEntry_duplicate [of s merged] by simp

lemma demo_import_parse:
  "parse demo_import_json demo_import_file = Some (JArr [demo_entry, demo_entry])"
  by (simp add: demo_import_json_def demo_import_file_def json_of_table_def)

lemma demo_import_round_trips: "round_trips demo_import_json (JArr [demo_entry])"
  by (simp add: demo_import_json_def round_trips_def json_of_table_def demo_entry_def)

lemma demo_entry_facts:
  "\<not> nullish demo_entry" "valid_entry demo_entry" "key_primitive demo_entry"
  "same_key demo_entry demo_entry"
  by (simp_all add: demo_entry_def valid_entry_def key_primitive_def same_key_def strict_eq_def)

lemma demo_importAll: "importAll [] [demo_entry, demo_entry] = Inr [demo_entry]"
  by (simp add: importEntry_valid demo_entry_facts)

theorem import_idempotent_witness:
  "parse demo_import_json demo_import_file = Some (JArr [demo_entry, demo_entry]) \<and>
   list_all key_primitive [demo_entry, demo_entry] \<and>
   round_trips demo_import_json (JArr [demo_entry]) \<and>
   getSubmissions demo_import_json
     (fst (importSubmissions demo_import_json demo_import_file True Map.empty)) = JArr [demo_entry] \<and>
   getSubmissions demo_import_json
     (fst (importSubmissions demo_import_json demo_import_file True
        (fst (importSubmissions demo_import_json demo_import_file True Map.empty)))) =
     JArr [demo_entry] \<and>
   importEntry [demo_entry] demo_entry = Inr [demo_entry]"
proof -
  have h2: "list_all key_primitive [demo_entry, demo_entry]"
    by (simp add: demo_entry_facts)
  have h3: "\<forall>E M. spread (getSubmissions demo_import_json Map.empty) = Inr E \<and>
      importAll E [demo_entry, demo_entry] = Inr M \<longrightarrow> round_trips demo_import_json (JArr M)"
    using demo_import_round_trips
    by (auto simp add: getSubmissions_empty demo_importAll simp del: importAll.simps)
  have once: "getSubmissions demo_import_json
     (fst (importSubmissions demo_import_json demo_import_file True Map.empty)) = JArr [demo_entry]"
    using demo_import_round_trips
    by (simp add: importSubmissions_def demo_import_parse getSubmissions_empty demo_importAll
        getSubmissions_written del: importAll.simps)
  show ?thesis
    using import_idempotent [OF demo_import_parse h2 h3, of True True demo_entry "[demo_entry]"]
      demo_import_parse h2 demo_import_round_trips once demo_entry_facts
    by simp
qed

text \<open>
  The restriction to primitive keys is needed. A pid that is an array is truthy and never
  \<^verbatim>\<open>===\<close> to the pid of another entry, so the entry below is appended by every import of
  its file: one import leaves one entry, two imports leave two.
\<close>

lemma odd_entry_facts:
  "\<not> nullish odd_entry" "valid_entry odd_entry" "\<not> same_key odd_entry odd_entry"
  by (simp_all add: odd_entry_def valid_entry_def same_key_def strict_eq_def)

lemma odd_round_trips:
  "round_trips odd_import_json (JArr [odd_entry])"
  "round_trips odd_import_json (JArr [odd_entry, odd_entry])"
  by (simp_all add: odd_import_json_def odd_import_file_def round_trips_def json_of_table_def
      odd_entry_def)

lemma odd_parse: "parse odd_import_json odd_import_file = Some (JArr [odd_entry])"
  by (simp add: odd_import_json_def json_of_table_def)

theorem import_not_idempotent_counterexample:
  "parse odd_import_json odd_import_file = Some (JArr [odd_entry]) \<and>
   round_trips odd_import_json (JArr [odd_entry]) \<and>
   round_trips odd_import_json (JArr [odd_entry, odd_entry]) \<and>
   getSubmissions odd_import_json
     (fst (importSubmissions odd_import_json odd_import_file True Map.empty)) = JArr [odd_entry] \<and>
   getSubmissions odd_import_json
     (fst (importSubmissions odd_import_json odd_import_file True
        (fst (importSubmissions odd_import_json odd_import_file True Map.empty)))) =
     JArr [odd_entry, odd_entry]"
proof -
  let ?ls1 = "setItem Map.empty SUBMISSIONS (stringify odd_import_json (JArr [odd_entry]))"
  have a1: "importAll [] [odd_entry] = Inr [odd_entry]"
    by (simp add: importEntry_valid odd_entry_facts)
  have a2: "importAll [odd_entry] [odd_entry] = Inr [odd_entry, odd_entry]"
    by (simp add: importEntry_valid odd_entry_facts)
  have first: "fst (importSubmissions odd_import_json odd_import_file True Map.empty) = ?ls1"
    by (simp add: importSubmissions_def odd_parse getSubmissions_empty a1 del: importAll.simps)
  have g1: "getSubmissions odd_import_json ?ls1 = JArr [odd_entry]"
    by (rule getSubmissions_written [OF odd_round_trips(1)])
  have second: "fst (importSubmissions odd_import_json odd_import_file True ?ls1) =
      setItem ?ls1 SUBMISSIONS (stringify odd_import_json (JArr [odd_entry, odd_entry]))"
    by (simp add: importSubmissions_def odd_parse g1 a2 del: importAll.simps)
  show ?thesis
    using odd_parse odd_round_trips
    by (simp add: first second g1 getSubmissions_written)
qed













text \<open>
  C4. What the import reports. The file below holds the same submission twice and the
  store is empty. One entry is appended and the collection has one entry, yet the alert
  says \<^verbatim>\<open>Imported 2 submissions\<close>: the first number is the length of the file's list, not
  the number of entries appended. The second number is the size of the merged collection.
\<close>

theorem import_reports_file_length:
  "importSubmissions demo_import_json demo_import_file True Map.empty =
     (setItem Map.empty SUBMISSIONS (stringify demo_import_json (JArr [demo_entry])),
      [Refresh, Alert ''Imported 2 submissions. Total: 1''])"
proof -
  have m: "importedMessage (Suc (Suc 0)) (Suc 0) = ''Imported 2 submissions. Total: 1''"
    by code_simp
  show ?thesis
    by (simp add: importSubmissions_def demo_import_parse getSubmissions_empty demo_importAll m
        del: importAll.simps)
qed

section \<open>Meeting ids\<close>

lemma digit_char_digit:
  assumes "d < 10"
  shows "is_digit (digit_char d)" and "digit_val (digit_char d) = d"
  using assms by (simp_all add: is_digit_def digit_val_def digit_char_def)

lemma NumberToString_digits: "list_all is_digit (NumberToString n)"
proof (induction n rule: NumberToString.induct)
  case (1 n)
  show ?case
  proof (cases "n < 10")
    case True
    then show ?thesis
      by (subst NumberToString.simps) (simp add: digit_char_digit)
  next
    case False
    with 1 show ?thesis
      by (subst NumberToString.simps) (simp add: digit_char_digit)
  qed
qed

lemma NumberToString_not_Nil: "NumberToString n \<noteq> []"
  by (subst NumberToString.simps) simp

lemma parseDigits_snoc: "parseDigits (ds @ [c]) = 10 * parseDigits ds + digit_val c"
  by (simp add: parseDigits_def)

lemma parseDigits_NumberToString: "parseDigits (NumberToString n) = n"
proof (induction n rule: NumberToString.induct)
  case (1 n)
  show ?case
  proof (cases "n < 10")
    case True
    then show ?thesis
      by (subst NumberToString.simps) (simp add: parseDigits_def digit_char_digit)
  next
    case False
    with 1 show ?thesis
      by (subst NumberToString.simps) (simp add: parseDigits_snoc digit_char_digit)
  qed
qed

lemma toDouble_exact: "n \<le> 2 ^ 53 \<Longrightarrow> toDouble n = n"
  by (simp add: toDouble_def)

lemma parseInt_digits:
  assumes "ds \<noteq> []" "list_all is_digit ds"
  shows "parseInt ds = Some (toDouble (parseDigits ds))"
proof -
  have tw: "takeWhile is_digit ds = ds"
    using assms(2) by (simp add: takeWhile_eq_all_conv list_all_iff)
  show ?thesis
    unfolding parseInt_def Let_def tw using assms(1) by simp
qed

lemma not_digit_m: "\<not> is_digit CHR ''m''"
  by (simp add: is_digit_def)

lemma meetingNumber_numbered:
  assumes "numbered m n" "n \<le> 2 ^ 53"
  shows "meetingNumber m = Inr (Some n)"
proof -
  from assms(1) obtain ds where id: "field m ''id'' = JStr (CHR ''m'' # ds)"
    and ds: "ds \<noteq> []" "list_all is_digit ds" "parseDigits ds = n"
    by (auto simp: numbered_def split: jsval.splits list.splits)
  have nn: "\<not> nullish m"
    using id by (cases m) auto
  have "filter is_digit (CHR ''m'' # ds) = ds"
    using ds(2) by (simp add: not_digit_m list_all_iff)
  then show ?thesis
    using id nn ds assms(2) by (simp add: meetingNumber_def parseInt_digits toDouble_exact)
qed

lemma mapE_numbered:
  assumes "list_all2 numbered meetings ns" "\<forall>n \<in> set ns. n \<le> 2 ^ 53"
  shows "mapE meetingNumber meetings = Inr (map Some ns)"
  using assms by (induction rule: list_all2_induct) (simp_all add: meetingNumber_numbered)

lemma filterBoolean_Some: "filterBoolean (map Some ns) = filter (\<lambda>n. n \<noteq> 0) ns"
  by (induction ns) auto

lemma max_of_ids:
  "(if filter (\<lambda>n. n \<noteq> 0) ns \<noteq> [] then Max (set (filter (\<lambda>n. n \<noteq> 0) ns)) else 0) =
     Max (insert (0::nat) (set ns))"
proof (cases "filter (\<lambda>n. n \<noteq> 0) ns = []")
  case True
  then have "set ns \<subseteq> {0}"
    by (auto simp: filter_empty_conv)
  then have e: "insert 0 (set ns) = {0}" by auto
  show ?thesis unfolding e using True by simp
next
  case False
  let ?T = "set (filter (\<lambda>n. n \<noteq> 0) ns)"
  have ne: "?T \<noteq> {}"
    using False set_empty [of "filter (\<lambda>n. n \<noteq> 0) ns"] by blast
  have "insert 0 (set ns) = insert 0 ?T" by auto
  then have "Max (insert 0 (set ns)) = max 0 (Max ?T)"
    using ne by simp
  then show ?thesis using False by simp
qed

lemma filterBoolean_length: "length (filterBoolean xs) \<le> length xs"
  by (induction xs rule: filterBoolean.induct) auto

lemma generateMeetingId_numbered:
  assumes "list_all2 numbered meetings ns" "\<forall>n \<in> set ns. n < 2 ^ 53"
    and "length meetings \<le> argLimit"
  shows "generateMeetingId argLimit meetings =
           Inr (''m'' @ NumberToString (Max (insert 0 (set ns)) + 1))"
proof -
  have le: "\<forall>n \<in> set ns. n \<le> 2 ^ 53"
    using assms(2) by auto
  have m: "mapE meetingNumber meetings = Inr (map Some ns)"
    by (rule mapE_numbered [OF assms(1) le])
  have "length (filterBoolean (map Some ns)) \<le> length meetings"
    using filterBoolean_length [of "map Some ns"] list_all2_lengthD [OF assms(1)] by simp
  then have lim: "\<not> argLimit < length (filterBoolean (map Some ns))"
    using assms(3) by linarith
  have "Max (insert 0 (set ns)) \<in> insert 0 (set ns)"
    by (rule Max_in) simp_all
  then consider "Max (insert 0 (set ns)) = 0" | "Max (insert 0 (set ns)) \<in> set ns"
    by auto
  then have "Max (insert 0 (set ns)) < 2 ^ 53"
  proof cases
    case 1
    then show ?thesis by simp
  next
    case 2
    then show ?thesis using assms(2) by blast
  qed
  then have "Max (insert 0 (set ns)) + 1 \<le> 2 ^ 53"
    by linarith
  then have td: "toDouble (Max (insert 0 (set ns)) + 1) = Max (insert 0 (set ns)) + 1"
    by (rule toDouble_exact)
  have g: "generateMeetingId argLimit meetings =
      Inr (''m'' @ NumberToString (toDouble
        ((if filterBoolean (map Some ns) \<noteq> [] then Max (set (filterBoolean (map Some ns)))
          else 0) + 1)))"
    using lim by (simp add: generateMeetingId_def m Let_def)
  show ?thesis
    unfolding g by (simp only: filterBoolean_Some max_of_ids td)
qed

lemma list_all2_witness:
  "list_all2 P xs ys \<Longrightarrow> x \<in> set xs \<Longrightarrow> \<exists>y \<in> set ys. P x y"
  by (induction rule: list_all2_induct) auto

lemma numbered_fresh:
  assumes "numbered m n" "n < k"
  shows "field m ''id'' \<noteq> JStr (''m'' @ NumberToString k)"
proof
  assume eq: "field m ''id'' = JStr (''m'' @ NumberToString k)"
  from assms(1) obtain ds where id: "field m ''id'' = JStr (CHR ''m'' # ds)"
    and ds: "parseDigits ds = n"
    by (auto simp: numbered_def split: jsval.splits list.splits)
  from eq id have "ds = NumberToString k" by simp
  then have "n = k" using ds by (simp add: parseDigits_NumberToString)
  then show False using assms(2) by simp
qed

lemma numbered_new:
  "numbered (JObj ((''id'', JStr (CHR ''m'' # NumberToString k)) # rest)) k"
  by (simp add: numbered_def NumberToString_not_Nil NumberToString_digits parseDigits_NumberToString)

text \<open>
  Where the code keeps its promise. Let every meeting have an id of the pattern
  \<^verbatim>\<open>m<integer>\<close>, let \<open>ns\<close> be the numbers of the ids, all below \<open>2 ^ 53\<close>, and let the
  list be no longer than the engine's limit on arguments. Then \<^verbatim>\<open>generateMeetingId\<close>
  returns \<^verbatim>\<open>m\<close> followed by the numeral of one plus the greatest number (of one, for no
  meetings); no meeting of the list has this id; and the add handler appends one
  meeting, which carries this id.
\<close>

lemma generateMeetingId_next:
  assumes "list_all2 numbered meetings ns" and "\<forall>n \<in> set ns. n < 2 ^ 53"
    and "length meetings \<le> argLimit"
  shows "generateMeetingId argLimit meetings =
           Inr (''m'' @ NumberToString (Max (insert 0 (set ns)) + 1)) \<and>
         (\<forall>m \<in> set meetings.
            field m ''id'' \<noteq> JStr (''m'' @ NumberToString (Max (insert 0 (set ns)) + 1))) \<and>
         (\<exists>new ls'. addMeeting JSON argLimit today meetings ls = Inr (meetings @ [new], ls') \<and>
            numbered new (Max (insert 0 (set ns)) + 1))"
proof -
  let ?k = "Max (insert 0 (set ns)) + 1"
  have g: "generateMeetingId argLimit meetings = Inr (''m'' @ NumberToString ?k)"
    by (rule generateMeetingId_numbered [OF assms])
  have fresh: "field m ''id'' \<noteq> JStr (''m'' @ NumberToString ?k)" if "m \<in> set meetings" for m
  proof -
    from list_all2_witness [OF assms(1) that] obtain n where n: "n \<in> set ns" "numbered m n"
      by blast
    have "n \<le> Max (insert 0 (set ns))"
      using n(1) by (intro Max_ge) simp_all
    then show ?thesis
      using numbered_fresh [OF n(2), of ?k] by simp
  qed
  have add: "\<exists>new ls'. addMeeting JSON argLimit today meetings ls = Inr (meetings @ [new], ls') \<and>
      numbered new ?k"
    by (simp add: addMeeting_def g Let_def numbered_new)
  from g fresh add show ?thesis by blast
qed

lemma digit_char_values:
  "digit_char 0 = CHR ''0''" "digit_char 1 = CHR ''1''" "digit_char (Suc 0) = CHR ''1''"
  "digit_char 2 = CHR ''2''" "digit_char 3 = CHR ''3''" "digit_char 4 = CHR ''4''"
  "digit_char 5 = CHR ''5''" "digit_char 6 = CHR ''6''" "digit_char 7 = CHR ''7''"
  "digit_char 8 = CHR ''8''" "digit_char 9 = CHR ''9''"
  by code_simp+

lemma demo_meetings_numbered: "list_all2 numbered demo_meetings [1, 3]"
  by (simp add: demo_meetings_def numbered_def is_digit_def parseDigits_def digit_val_def)

text \<open>The scenario of the specification: after \<^verbatim>\<open>m1\<close> and \<^verbatim>\<open>m3\<close> comes \<^verbatim>\<open>m4\<close>.\<close>

lemma generateMeetingId_m4: "generateMeetingId (Suc (Suc k)) demo_meetings = Inr ''m4''"
proof -
  have h: "\<forall>n \<in> set [1, 3 :: nat]. n < 2 ^ 53" by simp
  have l: "length demo_meetings \<le> Suc (Suc k)" by (simp add: demo_meetings_def)
  have m: "Max (insert 0 (set [1, 3 :: nat])) + 1 = 4" by simp
  have s: "NumberToString 4 = ''4''"
    by (simp add: NumberToString.simps digit_char_values)
  show ?thesis
    using generateMeetingId_numbered [OF demo_meetings_numbered h l]
    unfolding m s by simp
qed

text \<open>
  C8. Meeting id generation. The claim, and the function's own description
  (\<^verbatim>\<open>Generates a unique ID for new meetings\<close>), promise an id that no meeting of the list
  has: the letter \<^verbatim>\<open>m\<close> and one plus the greatest number. The code breaks the promise for the list
  of the one meeting \<^verbatim>\<open>m9007199254740992\<close>, whose number is \<open>2 ^ 53\<close>. \<open>2 ^ 53 + 1\<close> is not a
  double, \<^verbatim>\<open>max + 1\<close> rounds back to \<open>2 ^ 53\<close>, and the id that is generated is the id of
  the meeting in the list, whatever the engine's limit on arguments (one argument is
  always accepted).
\<close>

theorem generateMeetingId_repeats_id:
  "numbered huge_meeting 9007199254740992 \<and>
   field huge_meeting ''id'' = JStr ''m9007199254740992'' \<and>
   generateMeetingId (Suc argLimit) [huge_meeting] = Inr ''m9007199254740992''"
proof -
  have n: "numbered huge_meeting 9007199254740992"
    by (simp add: huge_meeting_def numbered_def is_digit_def parseDigits_def digit_val_def)
  have f: "field huge_meeting ''id'' = JStr ''m9007199254740992''"
    by (simp add: huge_meeting_def)
  have m: "meetingNumber huge_meeting = Inr (Some 9007199254740992)"
    by (rule meetingNumber_numbered [OF n]) simp
  have b: "bit_length 9007199254740993 = 54"
    by (simp add: bit_length.simps)
  have d: "toDouble 9007199254740993 = 9007199254740992"
    by (simp add: toDouble_def b)
  have s: "NumberToString 9007199254740992 = ''9007199254740992''"
    by (simp add: NumberToString.simps digit_char_values)
  have g: "generateMeetingId (Suc argLimit) [huge_meeting] = Inr ''m9007199254740992''"
    by (simp add: generateMeetingId_def m d s)
  from n f g show ?thesis by blast
qed

end
